theory Spec2Isabelle
  imports Main
begin

section \<open>Byte strings and the string functions of the Go library that main.go calls\<close>

text \<open>
  A Go string is a sequence of bytes, so it is modelled as \<open>string\<close> (a list of 8-bit
  characters). The tab written after every field and the newline that ends a line:
\<close>

definition TAB :: char where
  "TAB = CHR 0x09"

definition NL :: char where
  "NL = CHR 0x0A"

text \<open>
  \<open>strings.TrimSpace\<close> removes the leading and the trailing white-space runes. The ASCII
  ones are tab, line feed, vertical tab, form feed, carriage return and space; the others
  are listed by their UTF-8 encodings (U+0085, U+00A0, U+1680, U+2000 to U+200A, U+2028,
  U+2029, U+202F, U+205F, U+3000).
\<close>

definition asciiSpace :: "char \<Rightarrow> bool" where
  "asciiSpace c \<longleftrightarrow>
     c = CHR 0x09 \<or> c = CHR 0x0A \<or> c = CHR 0x0B \<or> c = CHR 0x0C \<or> c = CHR 0x0D \<or> c = CHR 0x20"

definition wideSpaces :: "string list" where
  "wideSpaces =
     [[CHR 0xC2, CHR 0x85], [CHR 0xC2, CHR 0xA0], [CHR 0xE1, CHR 0x9A, CHR 0x80],
      [CHR 0xE2, CHR 0x80, CHR 0x80], [CHR 0xE2, CHR 0x80, CHR 0x81],
      [CHR 0xE2, CHR 0x80, CHR 0x82], [CHR 0xE2, CHR 0x80, CHR 0x83],
      [CHR 0xE2, CHR 0x80, CHR 0x84], [CHR 0xE2, CHR 0x80, CHR 0x85],
      [CHR 0xE2, CHR 0x80, CHR 0x86], [CHR 0xE2, CHR 0x80, CHR 0x87],
      [CHR 0xE2, CHR 0x80, CHR 0x88], [CHR 0xE2, CHR 0x80, CHR 0x89],
      [CHR 0xE2, CHR 0x80, CHR 0x8A], [CHR 0xE2, CHR 0x80, CHR 0xA8],
      [CHR 0xE2, CHR 0x80, CHR 0xA9], [CHR 0xE2, CHR 0x80, CHR 0xAF],
      [CHR 0xE2, CHR 0x81, CHR 0x9F], [CHR 0xE3, CHR 0x80, CHR 0x80]]"

text \<open>The number of bytes of the white-space rune a string starts with, 0 when it starts
  with none; \<open>rs\<close> are the encodings of the runes that take more than one byte.\<close>

fun spaceLen :: "string list \<Rightarrow> string \<Rightarrow> nat" where
  "spaceLen rs [] = 0"
| "spaceLen rs (c # cs) =
     (if asciiSpace c then 1
      else case find (\<lambda>r. take (length r) (c # cs) = r) rs of
             Some r \<Rightarrow> length r
           | None \<Rightarrow> 0)"

fun trimStart :: "string list \<Rightarrow> string \<Rightarrow> string" where
  "trimStart rs [] = []"
| "trimStart rs (c # cs) =
     (if spaceLen rs (c # cs) = 0 then c # cs
      else trimStart rs (drop (spaceLen rs (c # cs) - 1) cs))"

text \<open>Trimming at the end reads the string backwards, against the reversed encodings.\<close>

definition TrimSpace :: "string \<Rightarrow> string" where
  "TrimSpace s = rev (trimStart (map rev wideSpaces) (rev (trimStart wideSpaces s)))"

text \<open>
  \<open>strings.ToLower\<close> maps every rune to its lower case. On ASCII that is the letters A to Z;
  beyond ASCII exactly two runes have an ASCII lower case: U+212A (Kelvin sign, bytes
  E2 84 AA) becomes k and U+0130 (bytes C4 B0) becomes i. Every other rune beyond ASCII has
  a lower case beyond ASCII; the model keeps its bytes, which changes no comparison with
  an ASCII word, the only use main.go makes of the result.
\<close>

definition asciiLower :: "char \<Rightarrow> char" where
  "asciiLower c =
     (if 65 \<le> (of_char c :: nat) \<and> (of_char c :: nat) \<le> 90
      then char_of ((of_char c :: nat) + 32) else c)"

fun ToLower :: "string \<Rightarrow> string" where
  "ToLower [] = []"
| "ToLower (c # cs) =
     (if c = CHR 0xE2 \<and> take 2 cs = [CHR 0x84, CHR 0xAA] then CHR ''k'' # ToLower (drop 2 cs)
      else if c = CHR 0xC4 \<and> take 1 cs = [CHR 0xB0] then CHR ''i'' # ToLower (drop 1 cs)
      else asciiLower c # ToLower cs)"

text \<open>\<open>strings.Split(s, ",")\<close>: the pieces between the commas, one more than there are
  commas, so the empty string gives one empty piece.\<close>

fun Split :: "string \<Rightarrow> string list" where
  "Split [] = [[]]"
| "Split (c # cs) =
     (if c = CHR '','' then [] # Split cs
      else (case Split cs of piece # pieces \<Rightarrow> (c # piece) # pieces | [] \<Rightarrow> [[c]]))"

section \<open>Colours: getColorFormat\<close>

text \<open>The attributes of the colour library that main.go names, and a colour made of one
  attribute by \<open>color.New\<close>.\<close>

datatype Attribute =
  Reset | FgBlack | FgRed | FgGreen | FgYellow | FgBlue | FgMagenta | FgCyan | FgWhite

datatype Color = New Attribute

text \<open>The \<open>switch\<close> of getColorFormat, on the trimmed and lowered token.\<close>

definition colorSwitch :: "string \<Rightarrow> Color" where
  "colorSwitch name =
     (if name = ''black'' then New FgBlack
      else if name = ''red'' then New FgRed
      else if name = ''green'' then New FgGreen
      else if name = ''yellow'' then New FgYellow
      else if name = ''blue'' then New FgBlue
      else if name = ''magenta'' then New FgMagenta
      else if name = ''cyan'' then New FgCyan
      else if name = ''white'' then New FgWhite
      else New Reset)"

definition getColorFormat :: "string \<Rightarrow> Color list" where
  "getColorFormat inStr =
     (if length inStr = 0 \<or> TrimSpace inStr = [] then []
      else foldl (\<lambda>outColors c. outColors @ [colorSwitch (ToLower (TrimSpace c))])
             [] (Split inStr))"

text \<open>The colour names of the switch with their attributes, and the ASCII letters, to state
  what the switch recognises.\<close>

definition colorNames :: "(string \<times> Attribute) list" where
  "colorNames =
     [(''black'', FgBlack), (''red'', FgRed), (''green'', FgGreen), (''yellow'', FgYellow),
      (''blue'', FgBlue), (''magenta'', FgMagenta), (''cyan'', FgCyan), (''white'', FgWhite)]"

definition asciiLetter :: "char \<Rightarrow> bool" where
  "asciiLetter c \<longleftrightarrow> (65 \<le> (of_char c :: nat) \<and> (of_char c :: nat) \<le> 90) \<or>
     (97 \<le> (of_char c :: nat) \<and> (of_char c :: nat) \<le> 122)"

section \<open>The line formatter: print\<close>

text \<open>
  The JSON query library (github.com/tidwall/gjson) is not part of the repository. Its
  result type is modelled with the three fields that print reads, and the query itself,
  \<open>gjson.ParseBytes(line).Get(field)\<close>, is a parameter of the model.
\<close>

datatype Type = Null | False_t | Number | String | True_t | JSON

record Result =
  Type :: Type
  Raw :: string
  Str :: string

text \<open>
  What print takes from outside the repository:
  \<^item> \<open>Get line field\<close> is \<open>gjson.ParseBytes(line).Get(field)\<close>;
  \<open>Sprintf c s\<close> is what the colour \<open>c\<close> makes of the formatted text \<open>s\<close>
  (\<open>c.Sprintf("%s\t", val)\<close> is \<open>Sprintf c (val @ [TAB])\<close>);
  \<^item> \<open>WriteErr p\<close> tells whether the writer \<open>out\<close> reports an error for the payload \<open>p\<close>.
\<close>

record Env =
  Get :: "string \<Rightarrow> string \<Rightarrow> Result"
  Sprintf :: "Color \<Rightarrow> string \<Rightarrow> string"
  WriteErr :: "string \<Rightarrow> bool"

text \<open>What a pump does to the world: a call of \<open>out.Write\<close> with a payload, or a line of the
  diagnostic log.\<close>

datatype LogMsg =
  WriteFailed string | OpenFailed | CloseFailed | ContextCancel | ScannerError | AllProcessed

datatype Event = Write string | Log LogMsg

text \<open>Lines 149 to 152: the value of a field is \<open>Str\<close>, or \<open>Raw\<close> for a container.\<close>

definition fieldVal :: "Result \<Rightarrow> string" where
  "fieldVal jsField = (if Type jsField = JSON then Raw jsField else Str jsField)"

text \<open>The loop over \<open>outFields\<close> (lines 147 to 162), from index \<open>idx\<close> on, returning the buffer.\<close>

fun printFields :: "Env \<Rightarrow> string \<Rightarrow> Color list \<Rightarrow> nat \<Rightarrow> string list \<Rightarrow> string \<Rightarrow> string" where
  "printFields env line outColors idx [] buff = buff"
| "printFields env line outColors idx (field # rest) buff =
     (let val = fieldVal (Get env line field) in
      if TrimSpace val = [] then printFields env line outColors (Suc idx) rest buff
      else if idx < length outColors
      then printFields env line outColors (Suc idx) rest
             (buff @ Sprintf env (outColors ! idx) (val @ [TAB]))
      else printFields env line outColors (Suc idx) rest (buff @ val @ [TAB]))"

text \<open>print returns nothing; the model returns the buffer as print leaves it and the events
  of the call, in order.\<close>

definition print :: "Env \<Rightarrow> string \<Rightarrow> string list \<Rightarrow> Color list \<Rightarrow> string \<Rightarrow> string \<times> Event list" where
  "print env line outFields outColors buff =
     (let buff1 = printFields env line outColors 0 outFields buff in
      if length buff1 = 0 then (buff1, [])
      else (let buff2 = buff1 @ [NL] in
            (buff2, Write buff2 # (if WriteErr env buff2 then [Log (WriteFailed buff2)] else []))))"

text \<open>The payloads written by a list of events.\<close>

fun writes :: "Event list \<Rightarrow> string list" where
  "writes [] = []"
| "writes (Write p # es) = p # writes es"
| "writes (Log m # es) = writes es"

section \<open>The file pump: pipeFile\<close>

text \<open>
  A file as pipeFile meets it: \<open>os.OpenFile\<close> may fail (no file); otherwise the scanner
  delivers its lines one by one and then stops, at the end of the file or with an error,
  and the deferred \<open>Close\<close> may fail.
\<close>

record File =
  scanned :: "string list"
  scanErr :: bool
  closeErr :: bool

text \<open>
  The \<open>for\<close> loop of pipeFile (lines 123 to 141). \<open>ctxDone n\<close> tells whether \<open>ctx.Done()\<close> is
  ready when the loop comes to its \<open>select\<close> for the \<open>n\<close>-th time, counting from 0; a
  \<open>select\<close> takes its \<open>default\<close> branch only when no other case is ready. The lines are what
  the scanner has not delivered yet. The loop returns its events and the lines it has left
  unread. The buffer is reset before each call of print. The wait group that main waits on
  is outside the model.
\<close>

fun pipeFileLoop ::
  "Env \<Rightarrow> (nat \<Rightarrow> bool) \<Rightarrow> string list \<Rightarrow> Color list \<Rightarrow> bool \<Rightarrow> nat \<Rightarrow> string list \<Rightarrow>
     Event list \<times> string list" where
  "pipeFileLoop env ctxDone outputFields outColors err n [] =
     (if ctxDone n then ([Log ContextCancel], [])
      else ([Log (if err then ScannerError else AllProcessed)], []))"
| "pipeFileLoop env ctxDone outputFields outColors err n (l # ls) =
     (if ctxDone n then ([Log ContextCancel], l # ls)
      else (case pipeFileLoop env ctxDone outputFields outColors err (Suc n) ls of
              (evs, unread) \<Rightarrow> (snd (print env l outputFields outColors []) @ evs, unread)))"

definition pipeFile ::
  "Env \<Rightarrow> (nat \<Rightarrow> bool) \<Rightarrow> File option \<Rightarrow> string list \<Rightarrow> Color list \<Rightarrow>
     Event list \<times> string list" where
  "pipeFile env ctxDone file outputFields outColors =
     (case file of
        None \<Rightarrow> ([Log OpenFailed], [])
      | Some f \<Rightarrow>
          (case pipeFileLoop env ctxDone outputFields outColors (scanErr f) 0 (scanned f) of
             (evs, unread) \<Rightarrow> (evs @ (if closeErr f then [Log CloseFailed] else []), unread)))"

text \<open>A context that is cancelled while the loop is in its pass \<open>t - 1\<close>, or before the loop
  starts when \<open>t = 0\<close>: the \<open>select\<close> sees it from pass \<open>t\<close> on, for ever.\<close>

definition cancelledFrom :: "nat \<Rightarrow> nat \<Rightarrow> bool" where
  "cancelledFrom t n \<longleftrightarrow> t \<le> n"

text \<open>
  The bytes one field adds to the buffer: one pass through the body of the loop, at
  index \<open>idx\<close>. The loop is the concatenation of these segments (lemma printFields_Cons).
\<close>

definition segment :: "Env \<Rightarrow> string \<Rightarrow> Color list \<Rightarrow> nat \<Rightarrow> string \<Rightarrow> string" where
  "segment env line outColors idx field =
     (let val = fieldVal (Get env line field) in
      if TrimSpace val = [] then []
      else if idx < length outColors then Sprintf env (outColors ! idx) (val @ [TAB])
      else val @ [TAB])"

section \<open>Sample answers of the two libraries\<close>

text \<open>
  To run print on concrete lines the parameters need values. \<open>sampleGet\<close> lists what the
  JSON query library answers on six lines: a string value gives type \<open>String\<close> with the
  decoded text in \<open>Str\<close>; a number gives type \<open>Number\<close> with the digits in \<open>Raw\<close> and
  an empty \<open>Str\<close> (the library fills \<open>Str\<close> for strings only); an object gives type
  \<open>JSON\<close> with its text in \<open>Raw\<close>; a path the line does not have gives the zero
  \<open>Result\<close>. The library does not validate a line: on \<open>line_truncated\<close>, whose closing
  brace is missing, it finds both keys, which come before the damage.
\<close>

definition noResult :: Result where
  "noResult = \<lparr>Type = Null, Raw = [], Str = []\<rparr>"

definition strResult :: "string \<Rightarrow> Result" where
  "strResult s = \<lparr>Type = String, Raw = [CHR 0x22] @ s @ [CHR 0x22], Str = s\<rparr>"

definition line_info :: string where
  \<open>line_info = ''{"time":"T1","level":"info","msg":"hi"}''\<close>

definition line_empty_msg :: string where
  \<open>line_empty_msg = ''{"time":"T1","msg":""}''\<close>

definition line_empty_object :: string where
  \<open>line_empty_object = ''{}''\<close>

definition line_count :: string where
  \<open>line_count = ''{"count":5}''\<close>

definition line_truncated :: string where
  \<open>line_truncated = ''{"time":"T1","msg":"hi"''\<close>

definition ctx_raw :: string where
  \<open>ctx_raw = ''{"id":7}''\<close>

definition line_nested :: string where
  \<open>line_nested = ''{"time":"T1","ctx":{"id":7},"msg":"hi"}''\<close>

definition sampleGet :: "string \<Rightarrow> string \<Rightarrow> Result" where
  \<open>sampleGet line path =
     (if line = line_info then
        (if path = ''time'' then strResult ''T1''
         else if path = ''level'' then strResult ''info''
         else if path = ''msg'' then strResult ''hi''
         else noResult)
      else if line = line_empty_msg then
        (if path = ''time'' then strResult ''T1''
         else if path = ''msg'' then strResult ''''
         else noResult)
      else if line = line_count then
        (if path = ''count'' then \<lparr>Type = Number, Raw = ''5'', Str = ''''\<rparr> else noResult)
      else if line = line_truncated then
        (if path = ''time'' then strResult ''T1''
         else if path = ''msg'' then strResult ''hi''
         else noResult)
      else if line = line_nested then
        (if path = ''time'' then strResult ''T1''
         else if path = ''ctx'' then \<lparr>Type = JSON, Raw = ctx_raw, Str = ''''\<rparr>
         else if path = ''ctx.id'' then \<lparr>Type = Number, Raw = ''7'', Str = ''''\<rparr>
         else if path = ''msg'' then strResult ''hi''
         else noResult)
      else noResult)\<close>

text \<open>
  \<open>ansiSprintf\<close> is what the colour library makes of a text when colouring is switched on:
  the escape sequence of the attribute's code, the text, and the escape sequence of the
  reset code.
\<close>

fun attrCode :: "Attribute \<Rightarrow> string" where
  "attrCode Reset = ''0''"
| "attrCode FgBlack = ''30''"
| "attrCode FgRed = ''31''"
| "attrCode FgGreen = ''32''"
| "attrCode FgYellow = ''33''"
| "attrCode FgBlue = ''34''"
| "attrCode FgMagenta = ''35''"
| "attrCode FgCyan = ''36''"
| "attrCode FgWhite = ''37''"

fun ansiSprintf :: "Color \<Rightarrow> string \<Rightarrow> string" where
  "ansiSprintf (New a) s = [CHR 0x1B] @ ''['' @ attrCode a @ ''m'' @ s @ [CHR 0x1B] @ ''[0m''"

definition sampleEnv :: Env where
  "sampleEnv = \<lparr>Get = sampleGet, Sprintf = ansiSprintf, WriteErr = (\<lambda>p. False)\<rparr>"

definition sampleFile :: File where
  "sampleFile =
     \<lparr>scanned = [line_info, line_empty_object, line_empty_msg, line_count],
      scanErr = False, closeErr = False\<rparr>"

section \<open>How the loop of print builds the buffer\<close>

lemma printFields_buff:
  "printFields env line outColors idx fs buff = buff @ printFields env line outColors idx fs []"
proof (induction fs arbitrary: idx buff)
  case Nil
  show ?case by simp
next
  case (Cons f fs)
  show ?case
    using Cons.IH [of "Suc idx" buff]
      Cons.IH [of "Suc idx" "buff @ Sprintf env (outColors ! idx) (fieldVal (Get env line f) @ [TAB])"]
      Cons.IH [of "Suc idx" "Sprintf env (outColors ! idx) (fieldVal (Get env line f) @ [TAB])"]
      Cons.IH [of "Suc idx" "buff @ fieldVal (Get env line f) @ [TAB]"]
      Cons.IH [of "Suc idx" "fieldVal (Get env line f) @ [TAB]"]
    by (simp add: Let_def)
qed

lemma printFields_Cons:
  "printFields env line outColors idx (f # fs) [] =
     segment env line outColors idx f @ printFields env line outColors (Suc idx) fs []"
proof -
  let ?v = "fieldVal (Get env line f)"
  have a: "printFields env line outColors (Suc idx) fs (Sprintf env (outColors ! idx) (?v @ [TAB]))
      = Sprintf env (outColors ! idx) (?v @ [TAB]) @ printFields env line outColors (Suc idx) fs []"
    by (rule printFields_buff)
  have b: "printFields env line outColors (Suc idx) fs (?v @ [TAB])
      = (?v @ [TAB]) @ printFields env line outColors (Suc idx) fs []"
    by (rule printFields_buff)
  show ?thesis using a b by (simp add: segment_def Let_def)
qed

lemma printFields_append:
  "printFields env line outColors idx (pre @ post) [] =
     printFields env line outColors idx pre [] @
     printFields env line outColors (idx + length pre) post []"
proof (induction pre arbitrary: idx)
  case Nil
  show ?case by simp
next
  case (Cons f pre)
  show ?case
    using Cons.IH [of "Suc idx"] by (simp only: printFields_Cons append_Cons append_assoc list.size) simp
qed

lemma printFields_split:
  "printFields env line outColors 0 (pre @ f # post) [] =
     printFields env line outColors 0 pre [] @ segment env line outColors (length pre) f @
     printFields env line outColors (Suc (length pre)) post []"
  using printFields_append [of env line outColors 0 pre "f # post"]
  by (simp only: printFields_Cons) simp

lemma writes_print:
  "writes (snd (print env line outFields outColors buff)) =
     (if printFields env line outColors 0 outFields buff = [] then []
      else [printFields env line outColors 0 outFields buff @ [NL]])"
  by (simp add: print_def Let_def)

lemma segment_plain:
  "segment env line [] idx f =
     (if TrimSpace (fieldVal (Get env line f)) = [] then [] else fieldVal (Get env line f) @ [TAB])"
  by (simp add: segment_def Let_def)

lemma printFields_plain:
  "printFields env line [] idx fs [] =
     concat (map (\<lambda>val. val @ [TAB])
       (filter (\<lambda>val. TrimSpace val \<noteq> []) (map (\<lambda>field. fieldVal (Get env line field)) fs)))"
proof (induction fs arbitrary: idx)
  case Nil
  show ?case by simp
next
  case (Cons f fs)
  show ?case
    using Cons.IH [of "Suc idx"] by (simp only: printFields_Cons segment_plain) simp
qed


lemma printFields_all_blank:
  "\<forall>field \<in> set fs. TrimSpace (fieldVal (Get env line field)) = [] \<Longrightarrow>
     printFields env line outColors idx fs buff = buff"
  by (induction fs arbitrary: idx) (simp_all add: Let_def)



section \<open>The claims about print\<close>



text \<open>
  C6. When every requested field of a line is absent or blank (its value trims to the
  empty string), print writes nothing: with the buffer reset, as both pumps reset it before
  the call, the buffer stays empty and there is no event at all, no write and so no bare
  newline.
\<close>

theorem print_all_blank_no_output:
  assumes "\<forall>field \<in> set outFields. TrimSpace (fieldVal (Get env line field)) = []"
  shows "print env line outFields outColors [] = ([], [])"
  using printFields_all_blank [OF assms, of outColors 0 "[]"] by (simp add: print_def)

theorem print_all_blank_no_output_witness:
  "TrimSpace (fieldVal (Get sampleEnv line_empty_object ''time'')) = [] \<and>
   TrimSpace (fieldVal (Get sampleEnv line_empty_object ''msg'')) = [] \<and>
   print sampleEnv line_empty_object [''time'', ''msg''] [] [] = ([], [])"
proof -
  have h: "\<forall>field \<in> set [''time'', ''msg''].
      TrimSpace (fieldVal (Get sampleEnv line_empty_object field)) = []"
    by code_simp
  show ?thesis using h print_all_blank_no_output [OF h, of "[]"] by simp
qed

text \<open>
  C5. A field whose path the document does not have (the query answers the zero result),
  or whose value trims to the empty string, adds nothing to the line: the buffer is what
  the fields before it give followed directly by what the fields after it give, which keep
  their own indexes. No empty cell, no tab, is written for it.
\<close>

theorem print_skips_blank_field:
  assumes "Get env line field = noResult \<or> TrimSpace (fieldVal (Get env line field)) = []"
  shows "printFields env line outColors 0 (pre @ field # post) [] =
           printFields env line outColors 0 pre [] @
           printFields env line outColors (Suc (length pre)) post []"
proof -
  have "TrimSpace (fieldVal noResult) = []"
    by code_simp
  with assms have "segment env line outColors (length pre) field = []"
    by (auto simp: segment_def)
  then show ?thesis
    by (simp add: printFields_split)
qed

theorem print_skips_blank_field_witness:
  "(Get sampleEnv line_info ''user'' = noResult \<or>
    TrimSpace (fieldVal (Get sampleEnv line_info ''user'')) = []) \<and>
   printFields sampleEnv line_info [] 0 ([''time''] @ ''user'' # [''msg'']) [] =
     ''T1'' @ [TAB] @ ''hi'' @ [TAB]"
proof -
  have h: "Get sampleEnv line_info ''user'' = noResult \<or>
      TrimSpace (fieldVal (Get sampleEnv line_info ''user'')) = []"
    by code_simp
  have e1: "printFields sampleEnv line_info [] 0 [''time''] [] = ''T1'' @ [TAB]"
    by code_simp
  have e2: "printFields sampleEnv line_info [] (Suc (length [''time''])) [''msg''] [] = ''hi'' @ [TAB]"
    by code_simp
  show ?thesis
    using h print_skips_blank_field [OF h, of "[]" "[''time'']" "[''msg'']"]
    unfolding e1 e2 by simp
qed





text \<open>
  C1, as the code has it. Without colours and with the buffer reset, print writes, for the
  fields whose values are not blank, each value followed by a tab, and then the newline:
  every field written, the last one too, is followed by a tab, and the newline comes after
  that tab. When no value is left nothing is written. So the line
  \<open>{"time":"T1","level":"info","msg":"hi"}\<close> with the fields time, level, msg gives
  T1 tab info tab hi tab newline, and \<open>{"time":"T1","msg":""}\<close> with the fields time, msg
  gives T1 tab newline.
\<close>

theorem print_plain_line:
  "writes (snd (print env line outFields [] [])) =
     (if filter (\<lambda>val. TrimSpace val \<noteq> []) (map (\<lambda>field. fieldVal (Get env line field)) outFields) = []
      then []
      else [concat (map (\<lambda>val. val @ [TAB])
              (filter (\<lambda>val. TrimSpace val \<noteq> [])
                 (map (\<lambda>field. fieldVal (Get env line field)) outFields))) @ [NL]])"
proof -
  define vals where
    "vals = filter (\<lambda>val. TrimSpace val \<noteq> []) (map (\<lambda>field. fieldVal (Get env line field)) outFields)"
  have "concat (map (\<lambda>val. val @ [TAB]) vals) = [] \<longleftrightarrow> vals = []"
    by (cases vals) simp_all
  then show ?thesis
    unfolding vals_def [symmetric] writes_print printFields_plain by (simp add: vals_def [symmetric])
qed

theorem print_plain_line_witness:
  "writes (snd (print sampleEnv line_info [''time'', ''level'', ''msg''] [] [])) =
     [''T1'' @ [TAB] @ ''info'' @ [TAB] @ ''hi'' @ [TAB] @ [NL]] \<and>
   writes (snd (print sampleEnv line_empty_msg [''time'', ''msg''] [] [])) =
     [''T1'' @ [TAB] @ [NL]]"
proof -
  have v1: "filter (\<lambda>val. TrimSpace val \<noteq> [])
      (map (\<lambda>field. fieldVal (Get sampleEnv line_info field)) [''time'', ''level'', ''msg'']) =
      [''T1'', ''info'', ''hi'']"
    by code_simp
  have v2: "filter (\<lambda>val. TrimSpace val \<noteq> [])
      (map (\<lambda>field. fieldVal (Get sampleEnv line_empty_msg field)) [''time'', ''msg'']) =
      [''T1'']"
    by code_simp
  show ?thesis
    using print_plain_line [of sampleEnv line_info "[''time'', ''level'', ''msg'']", unfolded v1]
      print_plain_line [of sampleEnv line_empty_msg "[''time'', ''msg'']", unfolded v2]
    by simp
qed

text \<open>
  C1, as the specification states it, fails: the payload for the first scenario is not
  T1 tab info tab hi newline, because a tab follows the last field as well.
\<close>

theorem print_no_trailing_tab_counterexample:
  "writes (snd (print sampleEnv line_info [''time'', ''level'', ''msg''] [] [])) \<noteq>
     [''T1'' @ [TAB] @ ''info'' @ [TAB] @ ''hi'' @ [NL]]"
  by code_simp

text \<open>
  C2. The value print takes from a scalar result is its \<open>Str\<close> field, which holds the
  decoded text of a JSON string and is empty for a number, a boolean and null. On the line
  \<open>{"count":5}\<close> the path count has type \<open>Number\<close>, the digit is in \<open>Raw\<close> only, and print
  writes nothing where the claim expects the text 5.
\<close>

theorem print_number_dropped:
  "Get sampleEnv line_count ''count'' = \<lparr>Type = Number, Raw = ''5'', Str = []\<rparr> \<and>
   fieldVal (Get sampleEnv line_count ''count'') = [] \<and>
   print sampleEnv line_count [''count''] [] [] = ([], [])"
  by code_simp

text \<open>
  C3, as the code has it. print has no error result and writes nothing for a line on
  which the query answers the zero result for every requested path. Whether the line is
  well formed plays no part in print.
\<close>

theorem print_no_match_no_output:
  assumes "\<forall>field \<in> set outFields. Get env line field = noResult"
  shows "print env line outFields outColors [] = ([], [])"
proof -
  have "TrimSpace (fieldVal noResult) = []"
    by code_simp
  with assms have "\<forall>field \<in> set outFields. TrimSpace (fieldVal (Get env line field)) = []"
    by simp
  then show ?thesis
    using printFields_all_blank [of outFields env line outColors 0 "[]"] by (simp add: print_def)
qed

theorem print_no_match_no_output_witness:
  "Get sampleEnv line_count ''level'' = noResult \<and>
   Get sampleEnv line_count ''user'' = noResult \<and>
   print sampleEnv line_count [''level'', ''user''] [New FgRed] [] = ([], [])"
proof -
  have h: "\<forall>field \<in> set [''level'', ''user'']. Get sampleEnv line_count field = noResult"
    by code_simp
  show ?thesis using h print_no_match_no_output [OF h, of "[New FgRed]"] by simp
qed

text \<open>
  C3, as the specification states it, fails: \<open>line_truncated\<close> is not well-formed JSON (its
  closing brace is missing), the query still finds time and msg, and print writes the line.
\<close>

theorem print_malformed_line_counterexample:
  "count_list line_truncated (CHR ''{'') = 1 \<and> count_list line_truncated (CHR ''}'') = 0 \<and>
   writes (snd (print sampleEnv line_truncated [''time'', ''msg''] [] [])) =
     [''T1'' @ [TAB] @ ''hi'' @ [TAB, NL]]"
  by code_simp

section \<open>Trimming, lowering and the colour switch\<close>

lemma foldl_snoc_map: "foldl (\<lambda>acc c. acc @ [f c]) a xs = a @ map f xs"
  by (induction xs arbitrary: a) simp_all

lemma trimStart_ascii_Cons: "asciiSpace c \<Longrightarrow> trimStart rs (c # s) = trimStart rs s"
  by simp

lemma trimStart_ascii_append:
  "\<forall>c \<in> set ws. asciiSpace c \<Longrightarrow> trimStart rs (ws @ s) = trimStart rs s"
  by (induction ws) simp_all

lemma trimStart_all_ascii: "\<forall>c \<in> set ws. asciiSpace c \<Longrightarrow> trimStart rs ws = []"
  by (induction ws) simp_all

lemma letter_not_space: "asciiLetter c \<Longrightarrow> \<not> asciiSpace c"
  by (auto simp: asciiLetter_def asciiSpace_def)

lemma spaceLen_letter:
  assumes "asciiLetter c" and "\<forall>r \<in> set rs. r \<noteq> [] \<and> \<not> asciiLetter (hd r)"
  shows "spaceLen rs (c # cs) = 0"
proof -
  have "\<not> (\<exists>r \<in> set rs. take (length r) (c # cs) = r)"
  proof
    assume "\<exists>r \<in> set rs. take (length r) (c # cs) = r"
    then obtain r where r: "r \<in> set rs" "take (length r) (c # cs) = r" by blast
    with assms(2) have "r \<noteq> []" "\<not> asciiLetter (hd r)" by auto
    moreover from r(2) \<open>r \<noteq> []\<close> have "hd r = c" by (cases r) auto
    ultimately show False using assms(1) by simp
  qed
  then have "find (\<lambda>r. take (length r) (c # cs) = r) rs = None"
    by (simp add: find_None_iff)
  with assms(1) show ?thesis by (simp add: letter_not_space)
qed

lemma trimStart_letter:
  "asciiLetter c \<Longrightarrow> \<forall>r \<in> set rs. r \<noteq> [] \<and> \<not> asciiLetter (hd r) \<Longrightarrow>
     trimStart rs (c # cs) = c # cs"
  using spaceLen_letter [of c rs cs] by simp

lemma wideSpaces_heads: "\<forall>r \<in> set wideSpaces. r \<noteq> [] \<and> \<not> asciiLetter (hd r)"
  by (simp add: wideSpaces_def asciiLetter_def)

lemma wideSpaces_rev_heads: "\<forall>r \<in> set (map rev wideSpaces). r \<noteq> [] \<and> \<not> asciiLetter (hd r)"
  by (simp add: wideSpaces_def asciiLetter_def)

lemma TrimSpace_padded_word:
  assumes "tok \<noteq> []" and "asciiLetter (hd tok)" and "asciiLetter (last tok)"
    and "\<forall>c \<in> set ws. asciiSpace c" and "\<forall>c \<in> set ws'. asciiSpace c"
  shows "TrimSpace (ws @ tok @ ws') = tok"
proof -
  from assms(1) obtain c cs where tok: "tok = c # cs" by (cases tok) auto
  from assms(2) have "asciiLetter c"
    by (simp add: tok)
  then have "trimStart wideSpaces (c # cs @ ws') = c # cs @ ws'"
    by (rule trimStart_letter [OF _ wideSpaces_heads])
  then have a: "trimStart wideSpaces (ws @ tok @ ws') = tok @ ws'"
    using trimStart_ascii_append [OF assms(4), of wideSpaces "tok @ ws'"]
    by (simp only: tok append_Cons)
  from assms(1) obtain d ds where r: "rev tok = d # ds" by (cases "rev tok") auto
  then have "d = last tok"
    using assms(1) by (metis last_rev list.sel(1) rev_rev_ident hd_rev)
  with assms(3) have "asciiLetter d"
    by simp
  then have "trimStart (map rev wideSpaces) (d # ds) = d # ds"
    by (rule trimStart_letter [OF _ wideSpaces_rev_heads])
  then have "trimStart (map rev wideSpaces) (rev tok) = rev tok"
    by (simp only: r)
  moreover have "trimStart (map rev wideSpaces) (rev ws' @ rev tok) =
      trimStart (map rev wideSpaces) (rev tok)"
    using assms(5) by (intro trimStart_ascii_append) simp
  ultimately show ?thesis
    by (simp add: TrimSpace_def a)
qed

lemma TrimSpace_blank:
  assumes "\<forall>c \<in> set ws. asciiSpace c"
  shows "TrimSpace ws = []"
  using trimStart_all_ascii [OF assms, of wideSpaces] by (simp add: TrimSpace_def)

lemma asciiLower_letter:
  "asciiLetter (asciiLower c) \<Longrightarrow> asciiLetter c"
  by (auto simp: asciiLower_def asciiLetter_def split: if_splits)

lemma ToLower_letters:
  "\<forall>c \<in> set s. asciiLetter c \<Longrightarrow> ToLower s = map asciiLower s"
proof (induction s)
  case Nil
  show ?case by simp
next
  case (Cons c s)
  then have "asciiLetter c" by simp
  then have "c \<noteq> CHR 0xE2" "c \<noteq> CHR 0xC4"
    by (auto simp: asciiLetter_def)
  with Cons show ?case by simp
qed

lemma colorNames_letters:
  "(name, attr) \<in> set colorNames \<Longrightarrow> name \<noteq> [] \<and> (\<forall>c \<in> set name. asciiLetter c)"
  by (auto simp: colorNames_def asciiLetter_def)

lemma colorSwitch_names:
  "(name, attr) \<in> set colorNames \<Longrightarrow> colorSwitch name = New attr"
  by (auto simp: colorNames_def colorSwitch_def)

lemma colorSwitch_other:
  "name \<notin> fst ` set colorNames \<Longrightarrow> colorSwitch name = New Reset"
  by (auto simp: colorNames_def colorSwitch_def)

lemma token_of_name:
  assumes "(name, attr) \<in> set colorNames" and "map asciiLower tok = name"
    and "\<forall>c \<in> set ws. asciiSpace c" and "\<forall>c \<in> set ws'. asciiSpace c"
  shows "colorSwitch (ToLower (TrimSpace (ws @ tok @ ws'))) = New attr"
proof -
  from colorNames_letters [OF assms(1)] assms(2)
  have ne: "tok \<noteq> []" and "\<forall>c \<in> set tok. asciiLetter (asciiLower c)"
    by auto
  then have letters: "\<forall>c \<in> set tok. asciiLetter c"
    using asciiLower_letter by blast
  with ne have "asciiLetter (hd tok)" "asciiLetter (last tok)"
    by simp_all
  then have "TrimSpace (ws @ tok @ ws') = tok"
    using TrimSpace_padded_word [OF ne _ _ assms(3,4)] by simp
  then show ?thesis
    using ToLower_letters [OF letters] assms(1,2) colorSwitch_names by simp
qed


section \<open>The claim about getColorFormat\<close>

text \<open>
  C8. getColorFormat gives the empty list for a specification that is empty or white space
  only. Otherwise it gives one colour for each piece between the commas, the one the switch
  assigns to the piece trimmed and lowered: a piece that is a colour name in any mix of
  upper and lower case, with any ASCII white space around it, gives that name's attribute,
  and a piece whose trimmed and lowered form is none of the eight names gives \<open>Reset\<close>.
  The function is total: no piece makes it fail.
\<close>

theorem getColorFormat_tokens:
  "(TrimSpace inStr = [] \<longrightarrow> getColorFormat inStr = []) \<and>
   ((\<forall>c \<in> set inStr. asciiSpace c) \<longrightarrow> getColorFormat inStr = []) \<and>
   (TrimSpace inStr \<noteq> [] \<longrightarrow>
      getColorFormat inStr = map (\<lambda>c. colorSwitch (ToLower (TrimSpace c))) (Split inStr)) \<and>
   ((name, attr) \<in> set colorNames \<and> map asciiLower tok = name \<and>
    (\<forall>c \<in> set ws. asciiSpace c) \<and> (\<forall>c \<in> set ws'. asciiSpace c) \<longrightarrow>
      colorSwitch (ToLower (TrimSpace (ws @ tok @ ws'))) = New attr) \<and>
   (ToLower (TrimSpace c) \<notin> fst ` set colorNames \<longrightarrow>
      colorSwitch (ToLower (TrimSpace c)) = New Reset)"
proof -
  have "TrimSpace [] = []" by (simp add: TrimSpace_def)
  then have 1: "TrimSpace inStr = [] \<longrightarrow> getColorFormat inStr = []"
    and 3: "TrimSpace inStr \<noteq> [] \<longrightarrow>
      getColorFormat inStr = map (\<lambda>c. colorSwitch (ToLower (TrimSpace c))) (Split inStr)"
    by (auto simp: getColorFormat_def foldl_snoc_map)
  have 2: "(\<forall>c \<in> set inStr. asciiSpace c) \<longrightarrow> getColorFormat inStr = []"
    using 1 TrimSpace_blank by blast
  show ?thesis
    using 1 2 3 token_of_name colorSwitch_other by blast
qed

theorem getColorFormat_tokens_witness:
  "TrimSpace '' Red,GREEN ,, teal'' \<noteq> [] \<and>
   getColorFormat '' Red,GREEN ,, teal'' = [New FgRed, New FgGreen, New Reset, New Reset] \<and>
   TrimSpace [CHR 0x20, TAB] = [] \<and>
   getColorFormat [CHR 0x20, TAB] = [] \<and>
   (''green'', FgGreen) \<in> set colorNames \<and>
   map asciiLower ''GrEEN'' = ''green'' \<and>
   colorSwitch (ToLower (TrimSpace ([CHR 0x20, TAB] @ ''GrEEN'' @ [CHR 0x20]))) = New FgGreen \<and>
   ToLower (TrimSpace '' teal'') \<notin> fst ` set colorNames \<and>
   colorSwitch (ToLower (TrimSpace '' teal'')) = New Reset"
proof -
  have h1: "TrimSpace '' Red,GREEN ,, teal'' \<noteq> []"
    by code_simp
  have e1: "map (\<lambda>c. colorSwitch (ToLower (TrimSpace c))) (Split '' Red,GREEN ,, teal'') =
      [New FgRed, New FgGreen, New Reset, New Reset]"
    by code_simp
  have h2: "TrimSpace [CHR 0x20, TAB] = []"
    by code_simp
  have h3: "(''green'', FgGreen) \<in> set colorNames"
    by (simp add: colorNames_def)
  have h4: "map asciiLower ''GrEEN'' = ''green''"
    by code_simp
  have h5: "\<forall>c \<in> set [CHR 0x20, TAB]. asciiSpace c"
    by (simp add: asciiSpace_def TAB_def)
  have h6: "\<forall>c \<in> set [CHR 0x20]. asciiSpace c"
    by (simp add: asciiSpace_def)
  have h7: "ToLower (TrimSpace '' teal'') \<notin> fst ` set colorNames"
    by code_simp
  note a = getColorFormat_tokens [of "'' Red,GREEN ,, teal''" "''green''" FgGreen "''GrEEN''"
      "[CHR 0x20, TAB]" "[CHR 0x20]" "'' teal''"]
  note b = getColorFormat_tokens [of "[CHR 0x20, TAB]" "''green''" FgGreen "''GrEEN''"
      "[CHR 0x20, TAB]" "[CHR 0x20]" "'' teal''"]
  from a h1 e1 have c1: "getColorFormat '' Red,GREEN ,, teal'' =
      [New FgRed, New FgGreen, New Reset, New Reset]"
    by metis
  from b h2 have c2: "getColorFormat [CHR 0x20, TAB] = []"
    by metis
  from a h3 h4 h5 h6
  have c3: "colorSwitch (ToLower (TrimSpace ([CHR 0x20, TAB] @ ''GrEEN'' @ [CHR 0x20]))) = New FgGreen"
    by metis
  from a h7 have c4: "colorSwitch (ToLower (TrimSpace '' teal'')) = New Reset"
    by metis
  from h1 c1 h2 c2 h3 h4 c3 h7 c4 show ?thesis
    by (intro conjI)
qed

section \<open>The claim about pipeFile\<close>

lemma writes_append: "writes (xs @ ys) = writes xs @ writes ys"
  by (induction xs rule: writes.induct) simp_all

lemma writes_concat: "writes (concat (map f ls)) = concat (map (\<lambda>l. writes (f l)) ls)"
  by (induction ls) (simp_all add: writes_append)

lemma pipeFileLoop_cancel:
  assumes "k \<le> length ls" and "ctxDone (n + k)" and "\<forall>j<k. \<not> ctxDone (n + j)"
  shows "pipeFileLoop env ctxDone fs cs err n ls =
           (concat (map (\<lambda>l. snd (print env l fs cs [])) (take k ls)) @ [Log ContextCancel],
            drop k ls)"
  using assms
proof (induction ls arbitrary: n k)
  case Nil
  then show ?case by simp
next
  case (Cons l ls)
  show ?case
  proof (cases k)
    case 0
    with Cons.prems show ?thesis by simp
  next
    case (Suc k')
    with Cons.prems have "\<not> ctxDone n"
      by (metis add.right_neutral zero_less_Suc)
    moreover have "k' \<le> length ls" "ctxDone (Suc n + k')" "\<forall>j<k'. \<not> ctxDone (Suc n + j)"
      using Cons.prems Suc by auto
    then have "pipeFileLoop env ctxDone fs cs err (Suc n) ls =
        (concat (map (\<lambda>l. snd (print env l fs cs [])) (take k' ls)) @ [Log ContextCancel],
         drop k' ls)"
      by (rule Cons.IH)
    ultimately show ?thesis
      using Suc by simp
  qed
qed

text \<open>
  C4. The pump looks at the cancellation signal at the start of every pass of its loop,
  before it asks the scanner for a line. At the first pass \<open>k\<close> that finds the signal
  triggered the pump stops: it has read and printed exactly the first \<open>k\<close> lines, the lines
  from \<open>k\<close> on stay unread however many there are, its events are those of the \<open>k\<close> lines
  followed by the log line of the cancellation (and of a failing close), and the payloads
  written are exactly those of the \<open>k\<close> lines, in order.
\<close>

theorem pipeFile_stops_at_cancel:
  assumes "k \<le> length (scanned f)" and "ctxDone k" and "\<forall>j<k. \<not> ctxDone j"
  shows "pipeFile env ctxDone (Some f) outputFields outColors =
           (concat (map (\<lambda>l. snd (print env l outputFields outColors [])) (take k (scanned f))) @
              Log ContextCancel # (if closeErr f then [Log CloseFailed] else []),
            drop k (scanned f)) \<and>
         writes (fst (pipeFile env ctxDone (Some f) outputFields outColors)) =
           concat (map (\<lambda>l. writes (snd (print env l outputFields outColors [])))
             (take k (scanned f)))"
proof -
  have "pipeFileLoop env ctxDone outputFields outColors (scanErr f) 0 (scanned f) =
      (concat (map (\<lambda>l. snd (print env l outputFields outColors [])) (take k (scanned f))) @
         [Log ContextCancel], drop k (scanned f))"
    using assms by (intro pipeFileLoop_cancel) simp_all
  then show ?thesis
    by (simp add: pipeFile_def writes_append writes_concat)
qed

theorem pipeFile_stops_at_cancel_witness:
  "2 \<le> length (scanned sampleFile) \<and> cancelledFrom 2 2 \<and>
   \<not> cancelledFrom 2 0 \<and> \<not> cancelledFrom 2 1 \<and>
   snd (pipeFile sampleEnv (cancelledFrom 2) (Some sampleFile) [''time'', ''msg''] []) =
     [line_empty_msg, line_count] \<and>
   writes (fst (pipeFile sampleEnv (cancelledFrom 2) (Some sampleFile) [''time'', ''msg''] [])) =
     [''T1'' @ [TAB] @ ''hi'' @ [TAB, NL]]"
proof -
  have h1: "2 \<le> length (scanned sampleFile)"
    by (simp add: sampleFile_def)
  have h2: "cancelledFrom 2 2"
    by (simp add: cancelledFrom_def)
  have h3: "\<forall>j<2. \<not> cancelledFrom 2 j"
    by (simp add: cancelledFrom_def)
  have d: "drop 2 (scanned sampleFile) = [line_empty_msg, line_count]"
    by (simp add: sampleFile_def)
  have w: "concat (map (\<lambda>l. writes (snd (print sampleEnv l [''time'', ''msg''] [] [])))
      (take 2 (scanned sampleFile))) = [''T1'' @ [TAB] @ ''hi'' @ [TAB, NL]]"
    by code_simp
  have n0: "\<not> cancelledFrom 2 0" and n1: "\<not> cancelledFrom 2 1"
    by (simp_all add: cancelledFrom_def)
  note stop = pipeFile_stops_at_cancel [OF h1 h2 h3, of sampleEnv "[''time'', ''msg'']" "[]"]
  have u: "snd (pipeFile sampleEnv (cancelledFrom 2) (Some sampleFile) [''time'', ''msg''] []) =
      [line_empty_msg, line_count]"
    by (simp only: stop [THEN conjunct1] snd_conv d)
  have x: "writes (fst (pipeFile sampleEnv (cancelledFrom 2) (Some sampleFile) [''time'', ''msg''] [])) =
      [''T1'' @ [TAB] @ ''hi'' @ [TAB, NL]]"
    by (simp only: stop [THEN conjunct2] w)
  from h1 h2 n0 n1 u x show ?thesis
    by (intro conjI)
qed

end
